theory Spec2Isabelle
  imports Main "HOL-Library.Word"
begin

section \<open>Values shared by all helpers\<close>

text \<open>
  A Go \<open>[]byte\<close> is a list of bytes. Buckets, object paths, URLs and header names are Go
  strings, modelled as \<open>string\<close>.
\<close>

type_synonym bytes = "8 word list"

text \<open>
  Go error values. \<open>ErrObjectNotExist\<close> is \<open>storage.ErrObjectNotExist\<close>, \<open>Done\<close> is
  \<open>iterator.Done\<close>, \<open>DeadlineExceeded\<close> is \<open>context.DeadlineExceeded\<close>, \<open>Other\<close> is any
  other error value of a collaborator (its message), and \<open>Errorf format args err\<close> is the
  value built by \<open>fmt.Errorf(format, args..., err)\<close>.
\<close>

datatype error =
    ErrObjectNotExist
  | Done
  | DeadlineExceeded
  | Other string
  | Errorf string "string list" error

text \<open>
  How a call ends: it returns a value, it panics, or it never returns.
\<close>

datatype panic =
    NilDereference
  | SliceBounds nat nat
  | IndexOutOfRange nat nat
  | LogPanic error

datatype 'a outcome = Returns 'a | Panics panic | Hangs

fun seq :: "'a outcome \<Rightarrow> ('a \<Rightarrow> 'b outcome) \<Rightarrow> 'b outcome" where
  "seq (Returns x) k = k x"
| "seq (Panics p) k = Panics p"
| "seq Hangs k = Hangs"

subsection \<open>Contexts and deadlines\<close>

text \<open>
  A \<open>context.Context\<close> is reduced to what the helpers use of it: the time bound, in
  nanoseconds as \<open>time.Duration\<close> counts, after which a call made under it is cancelled.
\<close>

record Context =
  deadline :: "int option"

definition Second :: int where
  "Second = 1000000000"

definition Timeout :: int where
  "Timeout = Second * 60"

definition context_Background :: Context where
  "context_Background = \<lparr>deadline = None\<rparr>"

definition context_WithTimeout :: "Context \<Rightarrow> int \<Rightarrow> Context" where
  "context_WithTimeout parent d =
     parent\<lparr>deadline := Some (case deadline parent of None \<Rightarrow> d | Some t \<Rightarrow> min t d)\<rparr>"

text \<open>
  What the other side of an external call does: it answers with a value, it fails with
  an error, or it stalls. A stalled call made under a context with a time bound ends with
  \<open>DeadlineExceeded\<close>; made under a context without one it never returns.
\<close>

datatype 'a reply = Answer 'a | Fail error | Stall

fun await :: "Context \<Rightarrow> 'a reply \<Rightarrow> (error + 'a) outcome" where
  "await ctx (Answer x) = Returns (Inr x)"
| "await ctx (Fail e) = Returns (Inl e)"
| "await ctx Stall =
     (case deadline ctx of None \<Rightarrow> Hangs | Some d \<Rightarrow> Returns (Inl DeadlineExceeded))"

section \<open>The object store and the network\<close>

text \<open>
  The store maps (bucket, object path) to the bytes of the object. The record is
  extensible: a caller's own variables, which a callback may change, live in the
  extension.
\<close>

record world =
  objects :: "(string \<times> string) \<rightharpoonup> bytes"

record ObjectAttrs =
  Bucket :: string
  Name :: string
  Size :: int

record Request =
  Method :: string
  URL :: string
  Header :: "(string \<times> string) list"

record Response =
  StatusCode :: int
  Body :: bytes

text \<open>
  The behaviour of the collaborators during one call of a helper: each field is the reply
  to one external call the helpers make. \<open>Object_NewReader\<close> and \<open>Object_Attrs\<close> are the
  transport's part of the reply; when the transport answers, the store decides.
  \<open>it_Next bucket prefix\<close> lists the replies to the successive \<open>it.Next()\<close> calls; after the
  last one the iterator is exhausted.
\<close>

record env =
  storage_NewClient :: "unit reply"
  io_Copy :: "unit reply"
  Writer_Close :: "unit reply"
  Object_NewReader :: "unit reply"
  ioutil_ReadAll :: "unit reply"
  Object_Attrs :: "unit reply"
  it_Next :: "string \<Rightarrow> string \<Rightarrow> ObjectAttrs reply list"
  http_NewRequest :: "string \<Rightarrow> string \<Rightarrow> error option"
  Client_Do :: "Request \<Rightarrow> Response reply"
  Body_ReadAll :: "unit reply"

text \<open>\<open>client.Bucket(bucket).Object(path).NewReader(ctx)\<close> on a live client.\<close>

definition NewReader ::
  "Context \<Rightarrow> env \<Rightarrow> 'a world_scheme \<Rightarrow> string \<Rightarrow> string \<Rightarrow> (error + bytes) outcome" where
  "NewReader ctx e w bucket path =
     seq (await ctx (Object_NewReader e)) (\<lambda>r.
       case r of
         Inl err \<Rightarrow> Returns (Inl err)
       | Inr _ \<Rightarrow>
           (case objects w (bucket, path) of
              None \<Rightarrow> Returns (Inl ErrObjectNotExist)
            | Some stored \<Rightarrow> Returns (Inr stored)))"

text \<open>
  \<open>utf8.ValidString\<close>: the bytes of the string are well-formed UTF-8, with no overlong
  form, no surrogate and nothing above U+10FFFF.
\<close>

definition between :: "nat \<Rightarrow> nat \<Rightarrow> char \<Rightarrow> bool" where
  "between lo hi c = (lo \<le> of_char c \<and> (of_char c :: nat) \<le> hi)"

fun utf8_ValidString :: "string \<Rightarrow> bool" where
  "utf8_ValidString [] = True"
| "utf8_ValidString (c # s) =
     (if between 0 127 c then utf8_ValidString s
      else if between 194 223 c then
        (case s of
           c1 # s' \<Rightarrow> between 128 191 c1 \<and> utf8_ValidString s'
         | _ \<Rightarrow> False)
      else if between 224 239 c then
        (case s of
           c1 # c2 # s' \<Rightarrow>
             between (if between 224 224 c then 160 else 128)
                     (if between 237 237 c then 159 else 191) c1 \<and>
             between 128 191 c2 \<and> utf8_ValidString s'
         | _ \<Rightarrow> False)
      else if between 240 244 c then
        (case s of
           c1 # c2 # c3 # s' \<Rightarrow>
             between (if between 240 240 c then 144 else 128)
                     (if between 244 244 c then 143 else 191) c1 \<and>
             between 128 191 c2 \<and> between 128 191 c3 \<and> utf8_ValidString s'
         | _ \<Rightarrow> False)
      else False)"

text \<open>
  The check the client makes on the names of an object before it sends a request for
  its attributes.
\<close>

definition ObjectHandle_validate :: "string \<Rightarrow> string \<Rightarrow> error option" where
  "ObjectHandle_validate bucket object =
     (if bucket = [] then Some (Other ''storage: bucket name is empty'')
      else if object = [] then Some (Other ''storage: object name is empty'')
      else if \<not> utf8_ValidString object then
        Some (Other ''storage: object name is not valid UTF-8'')
      else None)"

text \<open>\<open>client.Bucket(bucket).Object(path).Attrs(ctx)\<close> on a live client.\<close>

definition Attrs ::
  "Context \<Rightarrow> env \<Rightarrow> 'a world_scheme \<Rightarrow> string \<Rightarrow> string \<Rightarrow> (error + ObjectAttrs) outcome" where
  "Attrs ctx e w bucket path =
     (case ObjectHandle_validate bucket path of
        Some err \<Rightarrow> Returns (Inl err)
      | None \<Rightarrow>
          seq (await ctx (Object_Attrs e)) (\<lambda>r.
            case r of
              Inl err \<Rightarrow> Returns (Inl err)
            | Inr _ \<Rightarrow>
                (case objects w (bucket, path) of
                   None \<Rightarrow> Returns (Inl ErrObjectNotExist)
                 | Some stored \<Rightarrow>
                     Returns (Inr \<lparr>Bucket = bucket, Name = path,
                                   Size = int (length stored)\<rparr>))))"

section \<open>Blob transfer\<close>

text \<open>
  \<open>PutFile\<close>: the client is made under the background context, the writer under a
  context bounded by \<open>Timeout\<close>. The object is replaced when \<open>wc.Close()\<close> succeeds; a
  failed call leaves the store as it was. Logging is not modelled.
\<close>

definition PutFile ::
  "env \<Rightarrow> 'a world_scheme \<Rightarrow> string \<Rightarrow> string \<Rightarrow> bytes \<Rightarrow>
   (error option \<times> 'a world_scheme) outcome" where
  "PutFile e w bucket path data =
     (let ctx = context_Background in
      seq (await ctx (storage_NewClient e)) (\<lambda>r.
        case r of
          Inl err \<Rightarrow> Returns (Some (Errorf ''storage.NewClient: %v'' [] err), w)
        | Inr _ \<Rightarrow>
            (let ctx = context_WithTimeout ctx Timeout in
             seq (await ctx (io_Copy e)) (\<lambda>r.
               case r of
                 Inl err \<Rightarrow> Returns (Some (Errorf ''io.Copy: %v'' [] err), w)
               | Inr _ \<Rightarrow>
                   seq (await ctx (Writer_Close e)) (\<lambda>r.
                     case r of
                       Inl err \<Rightarrow> Returns (Some (Errorf ''Writer.Close: %v'' [] err), w)
                     | Inr _ \<Rightarrow>
                         Returns (None,
                           w\<lparr>objects := (objects w)((bucket, path) \<mapsto> data)\<rparr>))))))"

definition GetFile ::
  "env \<Rightarrow> 'a world_scheme \<Rightarrow> string \<Rightarrow> string \<Rightarrow> (error + bytes) outcome" where
  "GetFile e w bucket path =
     (let ctx = context_Background in
      seq (await ctx (storage_NewClient e)) (\<lambda>r.
        case r of
          Inl err \<Rightarrow> Returns (Inl (Errorf ''storage.NewClient: %v'' [] err))
        | Inr _ \<Rightarrow>
            (let ctx = context_WithTimeout ctx Timeout in
             seq (NewReader ctx e w bucket path) (\<lambda>r.
               case r of
                 Inl err \<Rightarrow> Returns (Inl (Errorf ''Object(%q).NewReader: %v'' [path] err))
               | Inr rc \<Rightarrow>
                   seq (await ctx (ioutil_ReadAll e)) (\<lambda>r.
                     case r of
                       Inl err \<Rightarrow> Returns (Inl (Errorf ''ioutil.ReadAll: %v'' [] err))
                     | Inr _ \<Rightarrow> Returns (Inr rc))))))"

section \<open>Existence check\<close>

text \<open>
  \<open>Exists\<close> discards the error of \<open>storage.NewClient\<close>: when the client could not be
  made it is nil, and the request made through it panics. The request is made under the
  background context. \<open>log.Panic\<close> is a panic carrying the error.
\<close>

definition Exists :: "env \<Rightarrow> 'a world_scheme \<Rightarrow> string \<Rightarrow> string \<Rightarrow> bool outcome" where
  "Exists e w bucket path =
     (let ctx = context_Background in
      seq (await ctx (storage_NewClient e)) (\<lambda>client.
        case client of
          Inl _ \<Rightarrow> Panics NilDereference
        | Inr _ \<Rightarrow>
            seq (Attrs ctx e w bucket path) (\<lambda>r.
              case r of
                Inl err \<Rightarrow>
                  if err = ErrObjectNotExist then Returns False
                  else Panics (LogPanic err)
              | Inr _ \<Rightarrow> Returns True)))"

section \<open>Listing\<close>

record FileMetadata =
  ObjectAttrs :: ObjectAttrs

text \<open>
  \<open>strings.Split(s, sep)\<close> for a separator of one byte: the pieces of \<open>s\<close> between the
  occurrences of \<open>sep\<close>, one more than there are occurrences.
\<close>

fun strings_Split :: "string \<Rightarrow> char \<Rightarrow> string list" where
  "strings_Split [] sep = [[]]"
| "strings_Split (c # s) sep =
     (if c = sep then [] # strings_Split s sep
      else (case strings_Split s sep of
              [] \<Rightarrow> [[c]]
            | piece # pieces \<Rightarrow> (c # piece) # pieces))"

definition FileName :: "FileMetadata \<Rightarrow> string" where
  "FileName s =
     (let nameArray = strings_Split (Name (ObjectAttrs s)) (CHR ''/'')
      in nameArray ! (length nameArray - 1))"

text \<open>
  The first loop of \<open>FilesAtPath\<close>: one \<open>it.Next()\<close> per round, until the iterator is
  exhausted (\<open>iterator.Done\<close>) or fails.
\<close>

fun Objects_loop ::
  "Context \<Rightarrow> string \<Rightarrow> ObjectAttrs reply list \<Rightarrow> FileMetadata list \<Rightarrow>
   (error + FileMetadata list) outcome" where
  "Objects_loop ctx bucket [] result = Returns (Inr result)"
| "Objects_loop ctx bucket (next # rest) result =
     seq (await ctx next) (\<lambda>r.
       case r of
         Inl err \<Rightarrow>
           if err = Done then Returns (Inr result)
           else Returns (Inl (Errorf ''Bucket(%q).Objects: %v'' [bucket] err))
       | Inr attrs \<Rightarrow>
           (let storageObject = \<lparr>ObjectAttrs = attrs\<rparr>
            in Objects_loop ctx bucket rest
                 (if FileName storageObject \<noteq> [] then result @ [storageObject]
                  else result)))"

text \<open>
  A Go slice is a window of length \<open>len\<close> on a backing array. \<open>array\<close> holds the backing
  array up to the capacity of the slice; the slice's elements are the first \<open>len\<close> of them.
  Only the cells below the length \<open>result\<close> has when the second loop starts are read or
  written by it, so the array is taken to end there.
\<close>

record 'a slice =
  array :: "'a list"
  len :: nat

definition slice_of :: "'a list \<Rightarrow> 'a slice" where
  "slice_of xs = \<lparr>array = xs, len = length xs\<rparr>"

definition elements :: "'a slice \<Rightarrow> 'a list" where
  "elements s = take (len s) (array s)"

text \<open>
  \<open>append(result[:i], result[i+1:]...)\<close>. \<open>result[:i]\<close> may reach up to the capacity;
  \<open>result[i+1:]\<close> ends at the length and panics when it would start beyond it. The
  append fits the capacity, so it moves the cells \<open>i+1 .. len-1\<close> one place down inside
  the same backing array and leaves the cells from \<open>len-1\<close> on as they were.
\<close>

definition remove_at :: "nat \<Rightarrow> 'a slice \<Rightarrow> 'a slice outcome" where
  "remove_at i s =
     (if i > length (array s) then Panics (SliceBounds i (length (array s)))
      else if i + 1 > len s then Panics (SliceBounds (i + 1) (len s))
      else Returns
        \<lparr>array = take i (array s) @ drop (i + 1) (take (len s) (array s))
                   @ drop (len s - 1) (array s),
         len = len s - 1\<rparr>)"

text \<open>
  \<open>for i, object := range result\<close>: the range expression is evaluated once, so the loop
  runs \<open>i\<close> from 0 to the first length \<open>n\<close> and reads cell \<open>i\<close> of the shared backing array
  in each round, while \<open>result\<close> is reassigned in the body.
\<close>

function range_loop ::
  "(FileMetadata \<Rightarrow> bool) \<Rightarrow> nat \<Rightarrow> nat \<Rightarrow> FileMetadata slice \<Rightarrow> FileMetadata slice outcome"
  where
  "range_loop f i n result =
     (if i < n then
        (if i \<ge> length (array result) then Panics (IndexOutOfRange i (length (array result)))
         else
           (let object = array result ! i in
            if \<not> f object then
              seq (remove_at i result) (\<lambda>result. range_loop f (i + 1) n result)
            else range_loop f (i + 1) n result))
      else Returns result)"
  by pat_completeness auto
termination
  by (relation "measure (\<lambda>(f, i, n, result). n - i)") auto

declare range_loop.simps [simp del]

definition FilesAtPath ::
  "env \<Rightarrow> string \<Rightarrow> string \<Rightarrow> (FileMetadata \<Rightarrow> bool) list \<Rightarrow>
   (error + FileMetadata list) outcome" where
  "FilesAtPath e bucket path filter' =
     (let ctx = context_Background in
      seq (await ctx (storage_NewClient e)) (\<lambda>r.
        case r of
          Inl err \<Rightarrow> Returns (Inl (Errorf ''storage.NewClient: %v'' [] err))
        | Inr _ \<Rightarrow>
            (let ctx = context_WithTimeout ctx (Second * 30) in
             seq (Objects_loop ctx bucket (it_Next e bucket path) []) (\<lambda>r.
               case r of
                 Inl err \<Rightarrow> Returns (Inl err)
               | Inr result \<Rightarrow>
                   (case filter' of
                      [] \<Rightarrow> Returns (Inr result)
                    | f # _ \<Rightarrow>
                        seq (range_loop f 0 (length result) (slice_of result)) (\<lambda>result.
                          Returns (Inr (elements result))))))))"

section \<open>Transform helpers\<close>

text \<open>
  A callback is a Go closure: it sees the fetched bytes and may change the world, the
  store included. Callbacks are taken to return.
\<close>

definition ProcessFile ::
  "env \<Rightarrow> 'a world_scheme \<Rightarrow> string \<Rightarrow> string \<Rightarrow>
   (bytes \<Rightarrow> 'a world_scheme \<Rightarrow> error option \<times> 'a world_scheme) \<Rightarrow>
   (error option \<times> 'a world_scheme) outcome" where
  "ProcessFile e w bucket path process =
     seq (GetFile e w bucket path) (\<lambda>r.
       case r of
         Inl err \<Rightarrow> Returns (Some err, w)
       | Inr data \<Rightarrow> Returns (process data w))"

definition ProcessAndUpdateFile ::
  "env \<Rightarrow> env \<Rightarrow> 'a world_scheme \<Rightarrow> string \<Rightarrow> string \<Rightarrow>
   (bytes \<Rightarrow> 'a world_scheme \<Rightarrow> (bytes \<times> error option) \<times> 'a world_scheme) \<Rightarrow>
   (error option \<times> 'a world_scheme) outcome" where
  "ProcessAndUpdateFile eg ep w bucket path process =
     seq (GetFile eg w bucket path) (\<lambda>r.
       case r of
         Inl err \<Rightarrow> Returns (Some err, w)
       | Inr data \<Rightarrow>
           (case process data w of
              ((processedData, Some err), w') \<Rightarrow> Returns (Some err, w')
            | ((processedData, None), w') \<Rightarrow> PutFile ep w' bucket path processedData))"

section \<open>Network import\<close>

text \<open>
  \<open>http.NewRequest\<close> gives a request and no error, or a nil request and an error.
  \<open>headers\<close> is \<open>None\<close> for a nil map and otherwise the entries of the map in the order
  the \<open>range\<close> visits them. \<open>req.Header.Add\<close> is recorded as one more pair of the
  request's header; on a nil request it is a nil dereference. The client is
  \<open>http.Client{}\<close> and the request carries the background context.
\<close>

definition NewRequest :: "env \<Rightarrow> string \<Rightarrow> string \<Rightarrow> Request option \<times> error option" where
  "NewRequest e method url =
     (case http_NewRequest e method url of
        Some err \<Rightarrow> (None, Some err)
      | None \<Rightarrow> (Some \<lparr>Method = method, URL = url, Header = []\<rparr>, None))"

fun headers_loop :: "(string \<times> string) list \<Rightarrow> Request option \<Rightarrow> Request option outcome" where
  "headers_loop [] req = Returns req"
| "headers_loop ((header, v) # rest) req =
     (case req of
        None \<Rightarrow> Panics NilDereference
      | Some r \<Rightarrow> headers_loop rest (Some (r\<lparr>Header := Header r @ [(header, v)]\<rparr>)))"

definition SaveNetworkFile ::
  "env \<Rightarrow> 'a world_scheme \<Rightarrow> string \<Rightarrow> string \<Rightarrow> string \<Rightarrow> (string \<times> string) list option \<Rightarrow>
   ((bytes option \<times> error option) \<times> 'a world_scheme) outcome" where
  "SaveNetworkFile e w targetUrl destinationBucket destinationPath headers =
     (case NewRequest e ''GET'' targetUrl of (req, err) \<Rightarrow>
      seq (case headers of None \<Rightarrow> Returns req | Some hs \<Rightarrow> headers_loop hs req) (\<lambda>req.
        case err of
          Some err \<Rightarrow> Returns ((None, Some err), w)
        | None \<Rightarrow>
            (case req of
               None \<Rightarrow> Panics NilDereference
             | Some req \<Rightarrow>
                 seq (await context_Background (Client_Do e req)) (\<lambda>r.
                   case r of
                     Inl err \<Rightarrow> Returns ((None, Some err), w)
                   | Inr result \<Rightarrow>
                       seq (await context_Background (Body_ReadAll e)) (\<lambda>r.
                         case r of
                           Inl err \<Rightarrow> Returns ((None, Some err), w)
                         | Inr _ \<Rightarrow>
                             (let body = Body result in
                              seq (PutFile e w destinationBucket destinationPath body)
                                (\<lambda>(err, w'). Returns ((Some body, err), w'))))))))"

section \<open>Archive helpers\<close>

text \<open>
  The archive format is the work of \<open>archive/zip\<close>, which is not part of the package. The
  bytes of an archive are not spelled out: a byte sequence that holds an archive is
  modelled by what the reader of \<open>archive/zip\<close> finds in it, the files of a valid zip file
  in their order, and any other byte sequence is no zip file. A file has its name and
  what \<open>Open\<close> gives: an error or a reader, which \<open>ReadAll\<close> turns into an error or the
  content.
\<close>

record zip_File =
  File_Name :: string
  File_Open :: "error + (error + bytes)"

datatype archive_bytes = ZipFile "zip_File list" | NotZip bytes

text \<open>
  The writer keeps the entries created so far, the last of them open for writing.
  \<open>Create\<close> refuses a name longer than 65535 bytes. A name that ends in \<open>/\<close> makes a
  directory entry, and \<open>Write\<close> on a directory entry accepts no bytes. \<open>Close\<close> leaves in the
  buffer an archive of the entries, each readable with the content written to it.
\<close>

definition strings_HasSuffix :: "string \<Rightarrow> string \<Rightarrow> bool" where
  "strings_HasSuffix s suffix =
     (length suffix \<le> length s \<and> drop (length s - length suffix) s = suffix)"

record zip_Writer =
  dir :: "(string \<times> bytes) list"

definition zip_NewWriter :: zip_Writer where
  "zip_NewWriter = \<lparr>dir = []\<rparr>"

definition zip_Create :: "zip_Writer \<Rightarrow> string \<Rightarrow> error + zip_Writer" where
  "zip_Create w name =
     (if length name > 65535 then Inl (Other ''zip: FileHeader.Name too long'')
      else Inr (w\<lparr>dir := dir w @ [(name, [])]\<rparr>))"

definition zip_Write :: "zip_Writer \<Rightarrow> bytes \<Rightarrow> error + zip_Writer" where
  "zip_Write w p =
     (case rev (dir w) of
        [] \<Rightarrow> Inr w
      | (name, written) # earlier \<Rightarrow>
          if strings_HasSuffix name ''/'' then
            (if p = [] then Inr w else Inl (Other ''zip: write to directory''))
          else Inr (w\<lparr>dir := rev earlier @ [(name, written @ p)]\<rparr>))"

definition zip_Close :: "zip_Writer \<Rightarrow> error + archive_bytes" where
  "zip_Close w =
     Inr (ZipFile (map (\<lambda>(name, content).
       \<lparr>File_Name = name, File_Open = Inr (Inr content)\<rparr>) (dir w)))"



text \<open>
  The map given to \<open>Zip\<close> is the list of its entries in the order the \<open>range\<close> visits
  them in this run; its keys are distinct.
\<close>

fun Zip_loop :: "zip_Writer \<Rightarrow> (string \<times> bytes) list \<Rightarrow> error + zip_Writer" where
  "Zip_loop zipWriter [] = Inr zipWriter"
| "Zip_loop zipWriter ((filename, content) # rest) =
     (case zip_Create zipWriter filename of
        Inl err \<Rightarrow> Inl err
      | Inr zipWriter \<Rightarrow>
          (case zip_Write zipWriter content of
             Inl err \<Rightarrow> Inl err
           | Inr zipWriter \<Rightarrow> Zip_loop zipWriter rest))"

definition Zip :: "(string \<times> bytes) list \<Rightarrow> error + archive_bytes" where
  "Zip files =
     (case Zip_loop zip_NewWriter files of
        Inl err \<Rightarrow> Inl err
      | Inr zipWriter \<Rightarrow>
          (case zip_Close zipWriter of
             Inl err \<Rightarrow> Inl err
           | Inr buf \<Rightarrow> Inr buf))"



text \<open>
  The final slash-delimited segment of a key, in the words of the specification: what
  follows the last \<open>/\<close> of the key, the whole key when it has none.
\<close>

definition final_segment :: "string \<Rightarrow> string" where
  "final_segment key = rev (takeWhile (\<lambda>c. c \<noteq> CHR ''/'') (rev key))"

section \<open>Scenarios\<close>

text \<open>
  Collaborators that answer every call, an empty store, and a listing that enumerates
  the given object names in order.
\<close>

definition calm :: env where
  "calm =
     \<lparr>storage_NewClient = Answer (), io_Copy = Answer (), Writer_Close = Answer (),
      Object_NewReader = Answer (), ioutil_ReadAll = Answer (), Object_Attrs = Answer (),
      it_Next = (\<lambda>bucket prefix. []), http_NewRequest = (\<lambda>method url. None),
      Client_Do = (\<lambda>req. Fail (Other ''no route to host'')), Body_ReadAll = Answer ()\<rparr>"

definition empty_store :: world where
  "empty_store = \<lparr>objects = Map.empty\<rparr>"

definition obj :: "string \<Rightarrow> string \<Rightarrow> FileMetadata" where
  "obj bucket name = \<lparr>ObjectAttrs = \<lparr>Bucket = bucket, Name = name, Size = 0\<rparr>\<rparr>"

definition listing :: "string list \<Rightarrow> env" where
  "listing names =
     calm\<lparr>it_Next := (\<lambda>bucket prefix.
       map (\<lambda>name. Answer \<lparr>Bucket = bucket, Name = name, Size = 0\<rparr>) names)\<rparr>"

definition leaf_is_c :: "FileMetadata \<Rightarrow> bool" where
  "leaf_is_c object = (FileName object = ''c'')"

definition reject_all :: "FileMetadata \<Rightarrow> bool" where
  "reject_all object = False"

definition stored :: "string \<Rightarrow> string \<Rightarrow> bytes \<Rightarrow> world" where
  "stored bucket path data = \<lparr>objects = [(bucket, path) \<mapsto> data]\<rparr>"

text \<open>Collaborators that refuse the metadata request, that stall, and a malformed URL.\<close>

definition denied :: env where
  "denied = calm\<lparr>Object_Attrs := Fail (Other ''permission denied'')\<rparr>"

definition no_credentials :: env where
  "no_credentials = calm\<lparr>storage_NewClient := Fail (Other ''could not find default credentials'')\<rparr>"

definition stalled_store :: env where
  "stalled_store =
     calm\<lparr>Writer_Close := Stall, Object_NewReader := Stall, Object_Attrs := Stall\<rparr>"

definition stalled_server :: env where
  "stalled_server = calm\<lparr>Client_Do := (\<lambda>req. Stall)\<rparr>"

definition malformed :: env where
  "malformed = calm\<lparr>http_NewRequest := (\<lambda>method url. Some (Other ''missing protocol scheme''))\<rparr>"

text \<open>A server that answers one request, here with an error page.\<close>

definition not_found_page :: Response where
  "not_found_page = \<lparr>StatusCode = 404, Body = [110, 111]\<rparr>"

definition serving :: "Request \<Rightarrow> Response \<Rightarrow> env" where
  "serving expected response =
     calm\<lparr>Client_Do := (\<lambda>req. if req = expected then Answer response
                               else Fail (Other ''unexpected request''))\<rparr>"

text \<open>
  A caller whose callback keeps what it saw in a variable of its own, as the tests of the
  package do, and a callback that returns the bytes reversed. Both refuse an empty file.
\<close>

record caller = world +
  testField :: bytes

definition watching :: "world \<Rightarrow> bytes \<Rightarrow> caller" where
  "watching w seen = \<lparr>objects = objects w, testField = seen\<rparr>"

definition inspect :: "bytes \<Rightarrow> caller \<Rightarrow> error option \<times> caller" where
  "inspect file w =
     (if file = [] then Some (Other ''empty file'') else None, w\<lparr>testField := file\<rparr>)"

definition reversed :: "bytes \<Rightarrow> world \<Rightarrow> (bytes \<times> error option) \<times> world" where
  "reversed file w = ((rev file, if file = [] then Some (Other ''empty file'') else None), w)"

section \<open>Properties of the building blocks\<close>

lemma seq_Returns_iff: "seq m k = Returns y \<longleftrightarrow> (\<exists>x. m = Returns x \<and> k x = Returns y)"
  by (cases m) auto

subsection \<open>Leaf names\<close>

lemma strings_Split_nonempty: "strings_Split s c \<noteq> []"
  by (induction s) (auto split: list.splits)

lemma strings_Split_no_sep: "c \<notin> set s \<Longrightarrow> strings_Split s c = [s]"
  by (induction s) auto

lemma strings_Split_sep: "c \<in> set s \<Longrightarrow> 2 \<le> length (strings_Split s c)"
proof (induction s)
  case Nil
  then show ?case by simp
next
  case (Cons x xs)
  show ?case
  proof (cases "x = c")
    case True
    then show ?thesis
      using strings_Split_nonempty [of xs c] by (cases "strings_Split xs c") auto
  next
    case False
    with Cons show ?thesis by (auto split: list.splits)
  qed
qed

lemma last_strings_Split:
  "last (strings_Split s c) = rev (takeWhile (\<lambda>x. x \<noteq> c) (rev s))"
proof (induction s)
  case Nil
  then show ?case by simp
next
  case (Cons x xs)
  show ?case
  proof (cases "c \<in> set xs")
    case True
    from strings_Split_sep [OF True] obtain p q ps where
      sp: "strings_Split xs c = p # q # ps"
      by (cases "strings_Split xs c"; cases "tl (strings_Split xs c)") auto
    have "takeWhile (\<lambda>x. x \<noteq> c) (rev xs @ [x]) = takeWhile (\<lambda>x. x \<noteq> c) (rev xs)"
      using True by (simp add: takeWhile_append1)
    then show ?thesis using Cons sp by auto
  next
    case False
    have tw: "takeWhile (\<lambda>x. x \<noteq> c) (rev xs @ [y]) = rev xs @ takeWhile (\<lambda>x. x \<noteq> c) [y]"
      for y
      by (rule takeWhile_append2) (use False in auto)
    show ?thesis by (cases "x = c") (simp_all add: tw strings_Split_no_sep False)
  qed
qed

text \<open>The index \<open>len(nameArray)-1\<close> is always in range: the split has at least one piece.\<close>

lemma FileName_last: "FileName m = last (strings_Split (Name (ObjectAttrs m)) (CHR ''/''))"
  using strings_Split_nonempty [of "Name (ObjectAttrs m)" "CHR ''/''"]
  by (simp add: FileName_def Let_def last_conv_nth)

lemma FileName_final_segment: "FileName m = final_segment (Name (ObjectAttrs m))"
  by (simp add: FileName_last final_segment_def last_strings_Split)

subsection \<open>The two loops of the listing\<close>

lemma Objects_loop_result:
  "Objects_loop ctx b rs acc = Returns (Inr result) \<Longrightarrow> x \<in> set result \<Longrightarrow>
   x \<in> set acc \<or> (FileName x \<noteq> [] \<and> Answer (ObjectAttrs x) \<in> set rs)"
proof (induction rs arbitrary: acc)
  case Nil
  then show ?case by simp
next
  case (Cons r rs)
  show ?case
  proof (cases r)
    case (Answer a)
    with Cons.prems have
      "Objects_loop ctx b rs
         (if FileName \<lparr>ObjectAttrs = a\<rparr> \<noteq> [] then acc @ [\<lparr>ObjectAttrs = a\<rparr>] else acc)
       = Returns (Inr result)"
      by (simp add: Let_def)
    from Cons.IH [OF this Cons.prems(2)] show ?thesis
      using Answer by (auto split: if_splits)
  next
    case (Fail err)
    with Cons.prems show ?thesis by (auto split: if_splits)
  next
    case Stall
    with Cons.prems show ?thesis by (auto split: option.splits)
  qed
qed

lemma Objects_loop_answers:
  "Objects_loop ctx b (map Answer as) acc =
     Returns (Inr (acc @ filter (\<lambda>m. FileName m \<noteq> []) (map (\<lambda>a. \<lparr>ObjectAttrs = a\<rparr>) as)))"
  by (induction as arbitrary: acc) (auto simp: Let_def)

lemma remove_at_array:
  assumes "remove_at i s = Returns s'"
  shows "set (array s') \<subseteq> set (array s)"
proof -
  from assms have "array s' =
      take i (array s) @ drop (i + 1) (take (len s) (array s)) @ drop (len s - 1) (array s)"
    by (auto simp: remove_at_def split: if_splits)
  moreover have "set (take i (array s)) \<subseteq> set (array s)"
    by (rule set_take_subset)
  moreover have "set (drop (i + 1) (take (len s) (array s))) \<subseteq> set (array s)"
    using set_drop_subset set_take_subset by (rule subset_trans)
  moreover have "set (drop (len s - 1) (array s)) \<subseteq> set (array s)"
    by (rule set_drop_subset)
  ultimately show ?thesis by auto
qed

lemma range_loop_array:
  "range_loop f i n s = Returns s' \<Longrightarrow> set (array s') \<subseteq> set (array s)"
proof (induction f i n s arbitrary: s' rule: range_loop.induct)
  case (1 f i n result)
  show ?case
  proof (cases "i < n")
    case False
    with "1.prems" show ?thesis by (simp add: range_loop.simps)
  next
    case True
    show ?thesis
    proof (cases "i \<ge> length (array result)")
      case True
      with \<open>i < n\<close> "1.prems" show ?thesis by (simp add: range_loop.simps)
    next
      case inb: False
      show ?thesis
      proof (cases "f (array result ! i)")
        case True
        with \<open>i < n\<close> inb "1.prems" have "range_loop f (i + 1) n result = Returns s'"
          by (simp add: range_loop.simps [of f i])
        with "1.IH"(2) [OF \<open>i < n\<close> inb refl] True show ?thesis by simp
      next
        case False
        with \<open>i < n\<close> inb "1.prems" obtain r where
          r: "remove_at i result = Returns r" and l: "range_loop f (i + 1) n r = Returns s'"
          by (auto simp: range_loop.simps [of f i] seq_Returns_iff)
        from "1.IH"(1) [OF \<open>i < n\<close> inb refl False l] have "set (array s') \<subseteq> set (array r)" .
        with remove_at_array [OF r] show ?thesis by blast
      qed
    qed
  qed
qed

lemma FilesAtPath_Returns_Inr:
  assumes "FilesAtPath e bucket path flt = Returns (Inr result)"
  obtains listed where
    "Objects_loop (context_WithTimeout context_Background (Second * 30)) bucket
       (it_Next e bucket path) [] = Returns (Inr listed)"
    and "set result \<subseteq> set listed"
proof -
  let ?loop = "Objects_loop (context_WithTimeout context_Background (Second * 30)) bucket
       (it_Next e bucket path) []"
  from assms obtain c where c: "await context_Background (storage_NewClient e) = Returns c"
    and k1: "(case c of
          Inl err \<Rightarrow> Returns (Inl (Errorf ''storage.NewClient: %v'' [] err))
        | Inr _ \<Rightarrow>
             seq ?loop (\<lambda>r.
               case r of
                 Inl err \<Rightarrow> Returns (Inl err)
               | Inr result \<Rightarrow>
                   (case flt of
                      [] \<Rightarrow> Returns (Inr result)
                    | f # _ \<Rightarrow>
                        seq (range_loop f 0 (length result) (slice_of result)) (\<lambda>result.
                          Returns (Inr (elements result)))))) = Returns (Inr result)"
    by (auto simp: FilesAtPath_def Let_def seq_Returns_iff)
  from k1 obtain r where r: "?loop = Returns r"
    and k2: "(case r of
                 Inl err \<Rightarrow> Returns (Inl err)
               | Inr result \<Rightarrow>
                   (case flt of
                      [] \<Rightarrow> Returns (Inr result)
                    | f # _ \<Rightarrow>
                        seq (range_loop f 0 (length result) (slice_of result)) (\<lambda>result.
                          Returns (Inr (elements result))))) = Returns (Inr result)"
    by (cases c) (auto simp: seq_Returns_iff)
  from k2 obtain listed where listed: "r = Inr listed" by (cases r) auto
  have "set result \<subseteq> set listed"
  proof (cases flt)
    case Nil
    with k2 listed show ?thesis by simp
  next
    case (Cons f fs)
    with k2 listed obtain s' where
      rl: "range_loop f 0 (length listed) (slice_of listed) = Returns s'"
      and res: "result = elements s'"
      by (auto simp: seq_Returns_iff)
    have "set (elements s') \<subseteq> set (array s')"
      unfolding elements_def by (rule set_take_subset)
    with range_loop_array [OF rl] show ?thesis
      by (auto simp: res slice_of_def)
  qed
  with r listed that show ?thesis by blast
qed

lemma FilesAtPath_result:
  assumes "FilesAtPath e bucket path flt = Returns (Inr result)" and "x \<in> set result"
  shows "FileName x \<noteq> [] \<and> Answer (ObjectAttrs x) \<in> set (it_Next e bucket path)"
proof -
  from assms(1) obtain listed where
    listed: "Objects_loop (context_WithTimeout context_Background (Second * 30)) bucket
               (it_Next e bucket path) [] = Returns (Inr listed)"
    and sub: "set result \<subseteq> set listed"
    by (rule FilesAtPath_Returns_Inr)
  from sub assms(2) have "x \<in> set listed" by blast
  with Objects_loop_result [OF listed] show ?thesis by auto
qed

lemma FilesAtPath_unfiltered:
  assumes "storage_NewClient e = Answer ()" and "it_Next e bucket path = map Answer as"
  shows "FilesAtPath e bucket path [] =
    Returns (Inr (filter (\<lambda>x. FileName x \<noteq> []) (map (\<lambda>a. \<lparr>ObjectAttrs = a\<rparr>) as)))"
  using assms by (simp add: FilesAtPath_def Let_def Objects_loop_answers)

subsection \<open>Names of objects\<close>

lemma ObjectHandle_validate_bkt_k: "ObjectHandle_validate ''bkt'' ''k'' = None"
  by code_simp

subsection \<open>Blob transfer\<close>

lemma PutFile_Returns:
  assumes "PutFile e w bucket path D = Returns (r, w')"
  shows "(r = None \<and> w' = w\<lparr>objects := (objects w)((bucket, path) \<mapsto> D)\<rparr>) \<or> (r \<noteq> None \<and> w' = w)"
  using assms
  by (cases "storage_NewClient e"; cases "io_Copy e"; cases "Writer_Close e")
     (auto simp: PutFile_def Let_def context_WithTimeout_def context_Background_def
           split: option.splits)

lemma GetFile_Returns_Inr:
  assumes "GetFile e w bucket path = Returns (Inr d)"
  shows "objects w (bucket, path) = Some d"
  using assms
  by (cases "storage_NewClient e"; cases "Object_NewReader e"; cases "ioutil_ReadAll e";
      cases "objects w (bucket, path)")
     (auto simp: GetFile_def NewReader_def Let_def context_WithTimeout_def
           context_Background_def split: option.splits)

lemma GetFile_answered:
  assumes "storage_NewClient e = Answer ()" and "Object_NewReader e = Answer ()"
    and "ioutil_ReadAll e = Answer ()" and "objects w (bucket, path) = Some d"
  shows "GetFile e w bucket path = Returns (Inr d)"
  using assms by (simp add: GetFile_def NewReader_def Let_def)

subsection \<open>Request headers\<close>

lemma headers_loop_Some:
  "headers_loop hs (Some r) = Returns (Some (r\<lparr>Header := Header r @ hs\<rparr>))"
  by (induction hs arbitrary: r) auto

lemma headers_loop_None:
  "headers_loop hs None = (if hs = [] then Returns None else Panics NilDereference)"
  by (cases hs) auto

subsection \<open>The loops of the archive helpers\<close>






section \<open>Claims\<close>

text \<open>
  C1. The claim asks for the result to be exactly the entries of the unfiltered
  enumeration that the predicate accepts. The second loop of \<open>FilesAtPath\<close> removes
  a rejected entry from the slice it is ranging over, so the entry that moves into the
  freed cell is never shown to the predicate. With objects \<open>p/a\<close>, \<open>p/b\<close>, \<open>p/c\<close> and a
  predicate that accepts only the leaf \<open>c\<close>, the unfiltered enumeration is all three, the
  accepted subsequence is \<open>p/c\<close> alone, and \<open>FilesAtPath\<close> returns \<open>p/b\<close> and \<open>p/c\<close>.
\<close>

theorem FilesAtPath_filter_skips_after_removal:
  "FilesAtPath (listing [''p/a'', ''p/b'', ''p/c'']) ''bkt'' ''p/'' [] =
     Returns (Inr [obj ''bkt'' ''p/a'', obj ''bkt'' ''p/b'', obj ''bkt'' ''p/c'']) \<and>
   filter leaf_is_c [obj ''bkt'' ''p/a'', obj ''bkt'' ''p/b'', obj ''bkt'' ''p/c''] =
     [obj ''bkt'' ''p/c''] \<and>
   FilesAtPath (listing [''p/a'', ''p/b'', ''p/c'']) ''bkt'' ''p/'' [leaf_is_c] =
     Returns (Inr [obj ''bkt'' ''p/b'', obj ''bkt'' ''p/c''])"
  by (intro conjI; code_simp)

text \<open>
  The same loop panics when the predicate rejects two entries and the last entry is
  one of them: the stale copy of the last cell is rejected again when the slice is
  already too short for \<open>result[i+1:]\<close>.
\<close>

lemma FilesAtPath_filter_panics:
  "FilesAtPath (listing [''p/a'', ''p/b'']) ''bkt'' ''p/'' [reject_all] =
     Panics (SliceBounds 2 1)"
  by code_simp


text \<open>
  The writer also refuses a map with a name of more than 65535 bytes, already at
  \<open>Create\<close>.
\<close>

lemma Zip_long_name_refused:
  "Zip [(replicate 65536 (CHR ''a''), [])] = Inl (Other ''zip: FileHeader.Name too long'')"
  by (simp add: Zip_def zip_NewWriter_def zip_Create_def)



text \<open>
  C3. When \<open>PutFile(b, k, D)\<close> succeeds, the store it leaves is the one it found with
  the object at \<open>(b, k)\<close> replaced by \<open>D\<close>, so the object stored there is \<open>D\<close> in full. A
  \<open>GetFile(b, k)\<close> on the store it leaves never returns any other bytes than \<open>D\<close>, and
  returns \<open>D\<close> whenever the client is made and the reader and the read answer.
\<close>

theorem PutFile_then_GetFile:
  assumes "PutFile e w bucket path D = Returns (None, w')"
  shows "w' = w\<lparr>objects := (objects w)((bucket, path) \<mapsto> D)\<rparr> \<and>
         objects w' (bucket, path) = Some D \<and>
         (\<forall>d. GetFile e' w' bucket path = Returns (Inr d) \<longrightarrow> d = D) \<and>
         (storage_NewClient e' = Answer () \<and> Object_NewReader e' = Answer () \<and>
          ioutil_ReadAll e' = Answer () \<longrightarrow> GetFile e' w' bucket path = Returns (Inr D))"
proof -
  from PutFile_Returns [OF assms] have
    upd: "w' = w\<lparr>objects := (objects w)((bucket, path) \<mapsto> D)\<rparr>" by auto
  then have st: "objects w' (bucket, path) = Some D" by simp
  have "d = D" if "GetFile e' w' bucket path = Returns (Inr d)" for d
    using GetFile_Returns_Inr [OF that] st by simp
  moreover have "GetFile e' w' bucket path = Returns (Inr D)"
    if "storage_NewClient e' = Answer () \<and> Object_NewReader e' = Answer () \<and>
          ioutil_ReadAll e' = Answer ()"
    using that st by (simp add: GetFile_answered)
  ultimately show ?thesis using upd st by blast
qed

text \<open>Write-then-read at a concrete input.\<close>

theorem PutFile_then_GetFile_witness:
  "PutFile calm empty_store ''bkt'' ''k'' [1, 2, 3] = Returns (None, stored ''bkt'' ''k'' [1, 2, 3]) \<and>
   objects (stored ''bkt'' ''k'' [1, 2, 3]) (''bkt'', ''k'') = Some [1, 2, 3] \<and>
   GetFile calm (stored ''bkt'' ''k'' [1, 2, 3]) ''bkt'' ''k'' = Returns (Inr [1, 2, 3])"
proof -
  have put: "PutFile calm empty_store ''bkt'' ''k'' [1, 2, 3] =
      Returns (None, stored ''bkt'' ''k'' [1, 2, 3])"
    by (simp add: PutFile_def calm_def empty_store_def stored_def Let_def)
  have live: "storage_NewClient calm = Answer () \<and> Object_NewReader calm = Answer () \<and>
      ioutil_ReadAll calm = Answer ()"
    by (simp add: calm_def)
  from PutFile_then_GetFile [OF put, of calm] live put show ?thesis by blast
qed

text \<open>
  C4. \<open>Exists\<close> returns false exactly when the client was made and the metadata request
  yields \<open>storage.ErrObjectNotExist\<close>; it returns true exactly when the client was made
  and the metadata request succeeds; on any other error of the metadata request it panics
  with that error, and when the client could not be made it panics as well. So no failure
  other than the object-not-found error is ever reported as absence.
\<close>

theorem Exists_outcomes:
  "(Exists e w bucket path = Returns False \<longleftrightarrow>
      storage_NewClient e = Answer () \<and>
      Attrs context_Background e w bucket path = Returns (Inl ErrObjectNotExist)) \<and>
   (Exists e w bucket path = Returns True \<longleftrightarrow>
      storage_NewClient e = Answer () \<and>
      (\<exists>attrs. Attrs context_Background e w bucket path = Returns (Inr attrs))) \<and>
   (storage_NewClient e = Answer () \<and>
    Attrs context_Background e w bucket path = Returns (Inl err) \<and> err \<noteq> ErrObjectNotExist \<longrightarrow>
      Exists e w bucket path = Panics (LogPanic err)) \<and>
   ((\<exists>err. storage_NewClient e = Fail err) \<longrightarrow> Exists e w bucket path = Panics NilDereference)"
proof (cases "storage_NewClient e")
  case (Answer u)
  show ?thesis
  proof (cases "Attrs context_Background e w bucket path")
    case (Returns r)
    with Answer show ?thesis by (cases r) (auto simp: Exists_def Let_def)
  next
    case (Panics p)
    with Answer show ?thesis by (auto simp: Exists_def Let_def)
  next
    case Hangs
    with Answer show ?thesis by (auto simp: Exists_def Let_def)
  qed
next
  case (Fail err)
  then show ?thesis by (auto simp: Exists_def Let_def)
next
  case Stall
  then show ?thesis by (auto simp: Exists_def Let_def context_Background_def)
qed

text \<open>The existence check at a concrete input.\<close>

theorem Exists_outcomes_witness:
  "Attrs context_Background denied empty_store ''bkt'' ''k'' =
     Returns (Inl (Other ''permission denied'')) \<and>
   Exists denied empty_store ''bkt'' ''k'' = Panics (LogPanic (Other ''permission denied'')) \<and>
   Attrs context_Background calm empty_store ''bkt'' ''k'' = Returns (Inl ErrObjectNotExist) \<and>
   Exists calm empty_store ''bkt'' ''k'' = Returns False \<and>
   Exists calm (stored ''bkt'' ''k'' [1]) ''bkt'' ''k'' = Returns True \<and>
   Exists no_credentials (stored ''bkt'' ''k'' [1]) ''bkt'' ''k'' = Panics NilDereference"
proof -
  let ?denial = "Other ''permission denied''"
  have a1: "Attrs context_Background denied empty_store ''bkt'' ''k'' = Returns (Inl ?denial)"
    by (simp add: Attrs_def ObjectHandle_validate_bkt_k denied_def calm_def)
  have a2: "Attrs context_Background calm empty_store ''bkt'' ''k'' = Returns (Inl ErrObjectNotExist)"
    by (simp add: Attrs_def ObjectHandle_validate_bkt_k calm_def empty_store_def)
  have a3: "Attrs context_Background calm (stored ''bkt'' ''k'' [1]) ''bkt'' ''k'' =
      Returns (Inr \<lparr>Bucket = ''bkt'', Name = ''k'', Size = 1\<rparr>)"
    by (simp add: Attrs_def ObjectHandle_validate_bkt_k calm_def stored_def)
  have c1: "storage_NewClient denied = Answer ()" and c2: "storage_NewClient calm = Answer ()"
    and c3: "storage_NewClient no_credentials = Fail (Other ''could not find default credentials'')"
    by (simp_all add: denied_def no_credentials_def calm_def)
  have d: "?denial \<noteq> ErrObjectNotExist" by simp
  have e1: "Exists denied empty_store ''bkt'' ''k'' = Panics (LogPanic ?denial)"
    using Exists_outcomes [of denied empty_store "''bkt''" "''k''" ?denial] a1 c1 d by blast
  have e2: "Exists calm empty_store ''bkt'' ''k'' = Returns False"
    using Exists_outcomes [of calm empty_store "''bkt''" "''k''" ?denial] a2 c2 by blast
  have e3: "Exists calm (stored ''bkt'' ''k'' [1]) ''bkt'' ''k'' = Returns True"
    using Exists_outcomes [of calm "stored ''bkt'' ''k'' [1]" "''bkt''" "''k''" ?denial] a3 c2
    by blast
  have e4: "Exists no_credentials (stored ''bkt'' ''k'' [1]) ''bkt'' ''k'' = Panics NilDereference"
    using Exists_outcomes [of no_credentials "stored ''bkt'' ''k'' [1]" "''bkt''" "''k''" ?denial] c3
    by blast
  from a1 a2 e1 e2 e3 e4 show ?thesis by blast
qed

text \<open>
  C5. \<open>ProcessAndUpdateFile\<close>: when the fetch fails, its error is returned and the world is
  untouched; when the callback fails on the fetched bytes, its error is returned
  unchanged and the world is the one the callback left, with no write-back; when the
  callback succeeds, the outcome is that of writing its output back to the same bucket
  and path. The call succeeds only when the fetch, the callback and the write-back all
  succeeded, and then the stored object is the callback's output in full.
\<close>

theorem ProcessAndUpdateFile_outcomes:
  "(GetFile eg w bucket path = Returns (Inl err) \<longrightarrow>
      ProcessAndUpdateFile eg ep w bucket path process = Returns (Some err, w)) \<and>
   (GetFile eg w bucket path = Returns (Inr d) \<and> process d w = ((out, Some err), w1) \<longrightarrow>
      ProcessAndUpdateFile eg ep w bucket path process = Returns (Some err, w1)) \<and>
   (GetFile eg w bucket path = Returns (Inr d) \<and> process d w = ((out, None), w1) \<longrightarrow>
      ProcessAndUpdateFile eg ep w bucket path process = PutFile ep w1 bucket path out) \<and>
   (ProcessAndUpdateFile eg ep w bucket path process = Returns (None, w') \<longrightarrow>
      (\<exists>d out w1. GetFile eg w bucket path = Returns (Inr d) \<and>
         process d w = ((out, None), w1) \<and>
         PutFile ep w1 bucket path out = Returns (None, w') \<and>
         w' = w1\<lparr>objects := (objects w1)((bucket, path) \<mapsto> out)\<rparr>))"
proof (intro conjI impI)
  assume "GetFile eg w bucket path = Returns (Inl err)"
  then show "ProcessAndUpdateFile eg ep w bucket path process = Returns (Some err, w)"
    by (simp add: ProcessAndUpdateFile_def)
next
  assume "GetFile eg w bucket path = Returns (Inr d) \<and> process d w = ((out, Some err), w1)"
  then show "ProcessAndUpdateFile eg ep w bucket path process = Returns (Some err, w1)"
    by (simp add: ProcessAndUpdateFile_def)
next
  assume "GetFile eg w bucket path = Returns (Inr d) \<and> process d w = ((out, None), w1)"
  then show "ProcessAndUpdateFile eg ep w bucket path process = PutFile ep w1 bucket path out"
    by (simp add: ProcessAndUpdateFile_def)
next
  assume a: "ProcessAndUpdateFile eg ep w bucket path process = Returns (None, w')"
  then obtain x where x: "GetFile eg w bucket path = Returns x"
    and k: "(case x of
         Inl err \<Rightarrow> Returns (Some err, w)
       | Inr data \<Rightarrow>
           (case process data w of
              ((processedData, Some err), w') \<Rightarrow> Returns (Some err, w')
            | ((processedData, None), w') \<Rightarrow> PutFile ep w' bucket path processedData))
       = Returns (None, w')"
    by (auto simp: ProcessAndUpdateFile_def seq_Returns_iff)
  from k obtain d where d: "x = Inr d" by (cases x) auto
  obtain out r w1 where p: "process d w = ((out, r), w1)"
    by (metis surj_pair)
  from k d p have r: "r = None" and put: "PutFile ep w1 bucket path out = Returns (None, w')"
    by (cases r; simp)+
  from PutFile_Returns [OF put] have "w' = w1\<lparr>objects := (objects w1)((bucket, path) \<mapsto> out)\<rparr>"
    by simp
  with x d p r put
  show "\<exists>d out w1. GetFile eg w bucket path = Returns (Inr d) \<and>
         process d w = ((out, None), w1) \<and>
         PutFile ep w1 bucket path out = Returns (None, w') \<and>
         w' = w1\<lparr>objects := (objects w1)((bucket, path) \<mapsto> out)\<rparr>"
    by blast
qed

text \<open>The read-modify-write transform at a concrete input.\<close>

theorem ProcessAndUpdateFile_outcomes_witness:
  "GetFile calm (stored ''bkt'' ''k'' [1, 2]) ''bkt'' ''k'' = Returns (Inr [1, 2]) \<and>
   ProcessAndUpdateFile calm calm (stored ''bkt'' ''k'' [1, 2]) ''bkt'' ''k'' reversed =
     Returns (None, stored ''bkt'' ''k'' [2, 1]) \<and>
   GetFile calm (stored ''bkt'' ''k'' []) ''bkt'' ''k'' = Returns (Inr []) \<and>
   ProcessAndUpdateFile calm calm (stored ''bkt'' ''k'' []) ''bkt'' ''k'' reversed =
     Returns (Some (Other ''empty file''), stored ''bkt'' ''k'' []) \<and>
   ProcessAndUpdateFile calm calm empty_store ''bkt'' ''k'' reversed =
     Returns (Some (Errorf ''Object(%q).NewReader: %v'' [''k''] ErrObjectNotExist), empty_store)"
proof -
  let ?missing = "Errorf ''Object(%q).NewReader: %v'' [''k''] ErrObjectNotExist"
  have g1: "GetFile calm (stored ''bkt'' ''k'' [1, 2]) ''bkt'' ''k'' = Returns (Inr [1, 2])"
    by (simp add: GetFile_def NewReader_def calm_def stored_def Let_def)
  have g2: "GetFile calm (stored ''bkt'' ''k'' []) ''bkt'' ''k'' = Returns (Inr [])"
    by (simp add: GetFile_def NewReader_def calm_def stored_def Let_def)
  have g3: "GetFile calm empty_store ''bkt'' ''k'' = Returns (Inl ?missing)"
    by (simp add: GetFile_def NewReader_def calm_def empty_store_def Let_def)
  have p1: "reversed [1, 2] (stored ''bkt'' ''k'' [1, 2]) =
      (([2, 1], None), stored ''bkt'' ''k'' [1, 2])"
    by (simp add: reversed_def)
  have p2: "reversed [] (stored ''bkt'' ''k'' []) =
      (([], Some (Other ''empty file'')), stored ''bkt'' ''k'' [])"
    by (simp add: reversed_def)
  have put: "PutFile calm (stored ''bkt'' ''k'' [1, 2]) ''bkt'' ''k'' [2, 1] =
      Returns (None, stored ''bkt'' ''k'' [2, 1])"
    by (simp add: PutFile_def calm_def stored_def Let_def)
  have r1: "ProcessAndUpdateFile calm calm (stored ''bkt'' ''k'' [1, 2]) ''bkt'' ''k'' reversed =
      PutFile calm (stored ''bkt'' ''k'' [1, 2]) ''bkt'' ''k'' [2, 1]"
    using ProcessAndUpdateFile_outcomes
            [of calm "stored ''bkt'' ''k'' [1, 2]" "''bkt''" "''k''" ?missing calm reversed
                "[1, 2]" "[2, 1]" "stored ''bkt'' ''k'' [1, 2]" "stored ''bkt'' ''k'' [2, 1]"]
          g1 p1
    by blast
  have r2: "ProcessAndUpdateFile calm calm (stored ''bkt'' ''k'' []) ''bkt'' ''k'' reversed =
      Returns (Some (Other ''empty file''), stored ''bkt'' ''k'' [])"
    using ProcessAndUpdateFile_outcomes
            [of calm "stored ''bkt'' ''k'' []" "''bkt''" "''k''" "Other ''empty file''" calm
                reversed "[]" "[]" "stored ''bkt'' ''k'' []" "stored ''bkt'' ''k'' []"]
          g2 p2
    by blast
  have r3: "ProcessAndUpdateFile calm calm empty_store ''bkt'' ''k'' reversed =
      Returns (Some ?missing, empty_store)"
    using ProcessAndUpdateFile_outcomes
            [of calm empty_store "''bkt''" "''k''" ?missing calm reversed
                "[]" "[]" empty_store empty_store]
          g3
    by blast
  from g1 g2 r1 r2 r3 put show ?thesis by simp
qed

text \<open>
  C6. \<open>ProcessFile\<close>: when the fetch fails, its error is returned and the world is
  untouched, whatever the callback is, so the callback was not invoked; when the fetch
  returns bytes, they are the stored object, and the outcome is what the callback
  returns on them, unchanged. The helper writes nothing itself: for a callback that
  leaves the store alone, the store after the call is the store before it.
\<close>

theorem ProcessFile_frame:
  "(GetFile e w bucket path = Returns (Inl err) \<longrightarrow>
      ProcessFile e w bucket path process = Returns (Some err, w)) \<and>
   (GetFile e w bucket path = Returns (Inr d) \<longrightarrow>
      objects w (bucket, path) = Some d \<and>
      ProcessFile e w bucket path process = Returns (process d w)) \<and>
   ((\<forall>file v. objects (snd (process file v)) = objects v) \<and>
    ProcessFile e w bucket path process = Returns (r, w') \<longrightarrow> objects w' = objects w)"
proof (intro conjI impI)
  assume "GetFile e w bucket path = Returns (Inl err)"
  then show "ProcessFile e w bucket path process = Returns (Some err, w)"
    by (simp add: ProcessFile_def)
next
  assume g: "GetFile e w bucket path = Returns (Inr d)"
  then show "objects w (bucket, path) = Some d" by (rule GetFile_Returns_Inr)
  from g show "ProcessFile e w bucket path process = Returns (process d w)"
    by (simp add: ProcessFile_def)
next
  assume a: "(\<forall>file v. objects (snd (process file v)) = objects v) \<and>
    ProcessFile e w bucket path process = Returns (r, w')"
  then obtain x where x: "GetFile e w bucket path = Returns x"
    and k: "(case x of Inl err \<Rightarrow> Returns (Some err, w) | Inr data \<Rightarrow> Returns (process data w))
             = Returns (r, w')"
    by (auto simp: ProcessFile_def seq_Returns_iff)
  show "objects w' = objects w"
  proof (cases x)
    case (Inl err)
    with k show ?thesis by simp
  next
    case (Inr data)
    with k have "process data w = (r, w')" by simp
    with a have "objects (snd (r, w')) = objects w" by metis
    then show ?thesis by simp
  qed
qed

text \<open>The read-only transform at a concrete input.\<close>

theorem ProcessFile_frame_witness:
  "GetFile calm (watching (stored ''bkt'' ''k'' [7]) []) ''bkt'' ''k'' = Returns (Inr [7]) \<and>
   (\<forall>file v. objects (snd (inspect file v)) = objects v) \<and>
   ProcessFile calm (watching (stored ''bkt'' ''k'' [7]) []) ''bkt'' ''k'' inspect =
     Returns (None, watching (stored ''bkt'' ''k'' [7]) [7]) \<and>
   objects (watching (stored ''bkt'' ''k'' [7]) [7]) = objects (watching (stored ''bkt'' ''k'' [7]) []) \<and>
   GetFile calm (watching empty_store []) ''bkt'' ''k'' =
     Returns (Inl (Errorf ''Object(%q).NewReader: %v'' [''k''] ErrObjectNotExist)) \<and>
   ProcessFile calm (watching empty_store []) ''bkt'' ''k'' inspect =
     Returns (Some (Errorf ''Object(%q).NewReader: %v'' [''k''] ErrObjectNotExist),
              watching empty_store [])"
proof -
  let ?w = "watching (stored ''bkt'' ''k'' [7]) []"
  let ?w' = "watching (stored ''bkt'' ''k'' [7]) [7]"
  have g1: "GetFile calm ?w ''bkt'' ''k'' = Returns (Inr [7])"
    by (simp add: GetFile_def NewReader_def calm_def stored_def watching_def Let_def)
  have g2: "GetFile calm (watching empty_store []) ''bkt'' ''k'' =
     Returns (Inl (Errorf ''Object(%q).NewReader: %v'' [''k''] ErrObjectNotExist))"
    by (simp add: GetFile_def NewReader_def calm_def empty_store_def watching_def Let_def)
  have p: "inspect [7] ?w = (None, ?w')"
    by (simp add: inspect_def watching_def)
  have quiet: "\<forall>file v. objects (snd (inspect file v)) = objects v"
    by (simp add: inspect_def)
  have run: "ProcessFile calm ?w ''bkt'' ''k'' inspect = Returns (None, ?w')"
    using ProcessFile_frame [of calm ?w "''bkt''" "''k''" _ inspect "[7]"] g1 p by metis
  have frame: "objects ?w' = objects ?w"
    using ProcessFile_frame [of calm ?w "''bkt''" "''k''" _ inspect _ None ?w'] quiet run
    by blast
  have miss: "ProcessFile calm (watching empty_store []) ''bkt'' ''k'' inspect =
     Returns (Some (Errorf ''Object(%q).NewReader: %v'' [''k''] ErrObjectNotExist),
              watching empty_store [])"
    using ProcessFile_frame [of calm "watching empty_store []" "''bkt''" "''k''"
         "Errorf ''Object(%q).NewReader: %v'' [''k''] ErrObjectNotExist" inspect] g2
    by blast
  from g1 quiet run frame g2 miss show ?thesis by blast
qed

text \<open>
  C7. The claim asks for a bounded deadline on the external calls of every operation.
  \<open>Exists\<close> makes its metadata request under the background context, and
  \<open>SaveNetworkFile\<close> sends its request through \<open>http.Client{}\<close>: when the other side
  stalls, neither call returns. \<open>PutFile\<close> and \<open>GetFile\<close>, which bound their calls on
  the object by \<open>Timeout\<close>, return a deadline error in the same situation.
\<close>

theorem Exists_and_http_fetch_have_no_deadline:
  "Exists stalled_store empty_store ''bkt'' ''k'' = Hangs \<and>
   SaveNetworkFile stalled_server empty_store ''http://host/file'' ''bkt'' ''k'' None = Hangs \<and>
   PutFile stalled_store empty_store ''bkt'' ''k'' [1] =
     Returns (Some (Errorf ''Writer.Close: %v'' [] DeadlineExceeded), empty_store) \<and>
   GetFile stalled_store empty_store ''bkt'' ''k'' =
     Returns (Inl (Errorf ''Object(%q).NewReader: %v'' [''k''] DeadlineExceeded)) \<and>
   deadline (context_WithTimeout context_Background Timeout) = Some 60000000000"
  by (simp add: Exists_def Attrs_def ObjectHandle_validate_bkt_k SaveNetworkFile_def NewRequest_def PutFile_def GetFile_def
        NewReader_def stalled_store_def stalled_server_def calm_def empty_store_def Let_def
        context_Background_def context_WithTimeout_def Timeout_def Second_def)

text \<open>
  C8. When the request can be built, the server answers the GET request for the URL
  carrying the supplied headers with \<open>response\<close>, and the body can be read, then
  \<open>SaveNetworkFile\<close> ends as the \<open>PutFile\<close> of the body to the destination ends: it returns
  the body together with the error of the write, if any, and a successful write leaves
  the body stored at the destination. The status code of the response plays no part.
\<close>

theorem SaveNetworkFile_stores_body:
  assumes "http_NewRequest e ''GET'' targetUrl = None"
    and "Client_Do e \<lparr>Method = ''GET'', URL = targetUrl,
           Header = (case headers of None \<Rightarrow> [] | Some hs \<Rightarrow> hs)\<rparr> = Answer response"
    and "Body_ReadAll e = Answer ()"
  shows "SaveNetworkFile e w targetUrl bucket path headers =
           (case PutFile e w bucket path (Body response) of
              Returns (err, w') \<Rightarrow> Returns ((Some (Body response), err), w')
            | Panics p \<Rightarrow> Panics p
            | Hangs \<Rightarrow> Hangs) \<and>
         (PutFile e w bucket path (Body response) = Returns (None, w') \<longrightarrow>
            objects w' (bucket, path) = Some (Body response))"
proof -
  have "objects w' (bucket, path) = Some (Body response)"
    if "PutFile e w bucket path (Body response) = Returns (None, w')"
    using PutFile_Returns [OF that] by auto
  moreover have "SaveNetworkFile e w targetUrl bucket path headers =
           (case PutFile e w bucket path (Body response) of
              Returns (err, w') \<Rightarrow> Returns ((Some (Body response), err), w')
            | Panics p \<Rightarrow> Panics p
            | Hangs \<Rightarrow> Hangs)"
    using assms
    by (cases headers; cases "PutFile e w bucket path (Body response)")
       (auto simp: SaveNetworkFile_def NewRequest_def headers_loop_Some Let_def)
  ultimately show ?thesis by blast
qed

text \<open>The network import at a concrete input.\<close>

theorem SaveNetworkFile_stores_body_witness:
  "SaveNetworkFile
     (serving \<lparr>Method = ''GET'', URL = ''http://host/file'', Header = [(''Accept'', ''text/plain'')]\<rparr>
        not_found_page)
     empty_store ''http://host/file'' ''bkt'' ''k'' (Some [(''Accept'', ''text/plain'')]) =
   Returns ((Some [110, 111], None), stored ''bkt'' ''k'' [110, 111]) \<and>
   StatusCode not_found_page = 404"
proof -
  let ?req = "\<lparr>Method = ''GET'', URL = ''http://host/file'', Header = [(''Accept'', ''text/plain'')]\<rparr>"
  let ?e = "serving ?req not_found_page"
  have h1: "http_NewRequest ?e ''GET'' ''http://host/file'' = None"
    by (simp add: serving_def calm_def)
  have h2: "Client_Do ?e \<lparr>Method = ''GET'', URL = ''http://host/file'',
           Header = (case Some [(''Accept'', ''text/plain'')] of None \<Rightarrow> [] | Some hs \<Rightarrow> hs)\<rparr>
           = Answer not_found_page"
    by (simp add: serving_def calm_def)
  have h3: "Body_ReadAll ?e = Answer ()"
    by (simp add: serving_def calm_def)
  have put: "PutFile ?e empty_store ''bkt'' ''k'' (Body not_found_page) =
      Returns (None, stored ''bkt'' ''k'' [110, 111])"
    by (simp add: PutFile_def serving_def calm_def empty_store_def stored_def not_found_page_def Let_def)
  from SaveNetworkFile_stores_body [OF h1 h2 h3, of empty_store "''bkt''" "''k''"] put
  show ?thesis by (simp add: not_found_page_def)
qed

text \<open>
  C9. For every key, the derived leaf name is the final slash-delimited segment of the
  key: \<open>FileName\<close>, which splits the name on \<open>/\<close> and takes the last piece, agrees with
  \<open>final_segment\<close>. Whatever \<open>FilesAtPath\<close> returns, with or without a filter, every entry of
  the result has a non-empty leaf name and is one of the enumerated objects, so every
  enumerated object whose leaf name is empty is excluded. When the client is made and the
  enumeration answers, the unfiltered result is exactly the enumerated objects with a
  non-empty leaf name, in order.
\<close>

theorem FileName_final_segment_and_empty_leaf_excluded:
  "FileName m = final_segment (Name (ObjectAttrs m)) \<and>
   (FilesAtPath e bucket path flt = Returns (Inr result) \<longrightarrow>
      (\<forall>x\<in>set result.
         FileName x \<noteq> [] \<and> Answer (ObjectAttrs x) \<in> set (it_Next e bucket path))) \<and>
   (storage_NewClient e = Answer () \<and> it_Next e bucket path = map Answer as \<longrightarrow>
      FilesAtPath e bucket path [] =
        Returns (Inr (filter (\<lambda>x. FileName x \<noteq> []) (map (\<lambda>a. \<lparr>ObjectAttrs = a\<rparr>) as))))"
  using FileName_final_segment FilesAtPath_result FilesAtPath_unfiltered by blast

theorem FileName_final_segment_and_empty_leaf_excluded_witness:
  "FileName (obj ''bkt'' ''a/b/file.json'') = ''file.json'' \<and>
   FilesAtPath (listing [''p/'', ''p/a'']) ''bkt'' ''p/'' [] = Returns (Inr [obj ''bkt'' ''p/a'']) \<and>
   FileName (obj ''bkt'' ''p/'') = [] \<and>
   FileName (obj ''bkt'' ''p/a'') \<noteq> []"
proof -
  let ?e = "listing [''p/'', ''p/a'']"
  let ?as = "[\<lparr>Bucket = ''bkt'', Name = ''p/'', Size = 0\<rparr>,
              \<lparr>Bucket = ''bkt'', Name = ''p/a'', Size = 0\<rparr>]"
  note claim = FileName_final_segment_and_empty_leaf_excluded
    [of "obj ''bkt'' ''a/b/file.json''" ?e "''bkt''" "''p/''" "[]" "[obj ''bkt'' ''p/a'']" ?as]
  have client: "storage_NewClient ?e = Answer ()"
    by (simp add: listing_def calm_def)
  have listed: "it_Next ?e ''bkt'' ''p/'' = map Answer ?as"
    by (simp add: listing_def calm_def)
  have kept: "filter (\<lambda>x. FileName x \<noteq> []) (map (\<lambda>a. \<lparr>ObjectAttrs = a\<rparr>) ?as) =
      [obj ''bkt'' ''p/a'']"
    by code_simp
  have seg: "final_segment ''a/b/file.json'' = ''file.json''"
    by code_simp
  have dir: "FileName (obj ''bkt'' ''p/'') = []"
    by code_simp
  from claim client listed have
    "FilesAtPath ?e ''bkt'' ''p/'' [] =
       Returns (Inr (filter (\<lambda>x. FileName x \<noteq> []) (map (\<lambda>a. \<lparr>ObjectAttrs = a\<rparr>) ?as)))"
    by blast
  then have run: "FilesAtPath ?e ''bkt'' ''p/'' [] = Returns (Inr [obj ''bkt'' ''p/a''])"
    by (simp only: kept)
  with claim have leaf: "FileName (obj ''bkt'' ''p/a'') \<noteq> []"
    by simp
  from claim seg have name: "FileName (obj ''bkt'' ''a/b/file.json'') = ''file.json''"
    by (simp add: obj_def)
  from name run dir leaf show ?thesis by blast
qed

text \<open>
  C10, as stated, fails for a map of headers that is not nil but empty: the loop over it
  has no round, the nil request is never dereferenced, and the error of
  \<open>http.NewRequest\<close> is returned.
\<close>

theorem SaveNetworkFile_empty_headers_counterexample:
  "http_NewRequest malformed ''GET'' ''://nowhere'' = Some (Other ''missing protocol scheme'') \<and>
   SaveNetworkFile malformed empty_store ''://nowhere'' ''bkt'' ''k'' (Some []) =
     Returns ((None, Some (Other ''missing protocol scheme'')), empty_store)"
  by (simp add: SaveNetworkFile_def NewRequest_def malformed_def calm_def)

text \<open>
  C10, amended. When \<open>http.NewRequest\<close> fails, \<open>SaveNetworkFile\<close> panics on the nil request
  exactly when the map of headers has at least one entry; with a nil or an empty map it
  returns the error and no bytes, and leaves the store untouched.
\<close>

theorem SaveNetworkFile_nil_request:
  assumes "http_NewRequest e ''GET'' targetUrl = Some err"
  shows "SaveNetworkFile e w targetUrl bucket path headers =
           (case headers of
              None \<Rightarrow> Returns ((None, Some err), w)
            | Some [] \<Rightarrow> Returns ((None, Some err), w)
            | Some (h # hs) \<Rightarrow> Panics NilDereference)"
  using assms
  by (auto simp: SaveNetworkFile_def NewRequest_def headers_loop_None split: option.splits list.splits)

text \<open>The nil request at a concrete input.\<close>

theorem SaveNetworkFile_nil_request_witness:
  "http_NewRequest malformed ''GET'' ''://nowhere'' = Some (Other ''missing protocol scheme'') \<and>
   SaveNetworkFile malformed empty_store ''://nowhere'' ''bkt'' ''k''
     (Some [(''Accept'', ''text/plain'')]) = Panics NilDereference \<and>
   SaveNetworkFile malformed empty_store ''://nowhere'' ''bkt'' ''k'' None =
     Returns ((None, Some (Other ''missing protocol scheme'')), empty_store)"
proof -
  have h: "http_NewRequest malformed ''GET'' ''://nowhere'' = Some (Other ''missing protocol scheme'')"
    by (simp add: malformed_def calm_def)
  from SaveNetworkFile_nil_request [OF h, of empty_store "''bkt''" "''k''" "Some [(''Accept'', ''text/plain'')]"]
       SaveNetworkFile_nil_request [OF h, of empty_store "''bkt''" "''k''" None]
       h
  show ?thesis by simp
qed

end
